theory Spec2Isabelle
  imports Main
begin

section \<open>The asset cache of package loader\<close>

text \<open>
  The development embeds the asset manager of package \<open>loader\<close> (type \<open>AssetManager\<close> with
  its workers, and the facade \<open>GameAssetSystem\<close>). Every function below follows the Go
  function of the same name statement by statement. The manager is shared by several
  goroutines; the model runs one call at a time, each from entry to return, and a worker
  that sleeps between two critical sections is split into the part before and the part
  after the sleep, so that other calls can be placed in between. The lock is part of
  the state: a call that asks for a lock it holds itself cannot continue. Time is not
  modelled; \<open>time.Now()\<close> is an argument of the calls that read it.
\<close>

subsection \<open>Machine integers\<close>

text \<open>
  Go's \<open>int\<close> and \<open>int64\<close> are taken as 64-bit two's complement, \<open>int32\<close> as 32-bit.
  Values are kept as \<open>int\<close> and every arithmetic result is wrapped explicitly. Go's
  \<open>/\<close> truncates towards zero.
\<close>

definition i64 :: "int \<Rightarrow> int" where
  "i64 x = (x + 2 ^ 63) mod 2 ^ 64 - 2 ^ 63"

definition i32 :: "int \<Rightarrow> int" where
  "i32 x = (x + 2 ^ 31) mod 2 ^ 32 - 2 ^ 31"

definition quo :: "int \<Rightarrow> int \<Rightarrow> int" where
  "quo a b = (if (a < 0) = (b < 0) then \<bar>a\<bar> div \<bar>b\<bar> else - (\<bar>a\<bar> div \<bar>b\<bar>))"

subsection \<open>Failures, the lock and channels\<close>

text \<open>
  \<open>Panic\<close> is a Go run-time panic; none is recovered in the package, so it ends the
  process. \<open>Blocked\<close> is a call that cannot continue: it waits for a lock or for a channel
  value that the state it runs in does not provide.
\<close>

datatype fault = Panic | Blocked

text \<open>\<open>sync.RWMutex\<close>: one writer or any number of readers; not reentrant.\<close>

record RWMutex =
  writer :: bool
  readers :: nat

definition Lock :: "RWMutex \<Rightarrow> fault + RWMutex" where
  "Lock m = (if writer m \<or> 0 < readers m then Inl Blocked else Inr (m\<lparr>writer := True\<rparr>))"

definition Unlock :: "RWMutex \<Rightarrow> RWMutex" where
  "Unlock m = m\<lparr>writer := False\<rparr>"

definition RLock :: "RWMutex \<Rightarrow> fault + RWMutex" where
  "RLock m = (if writer m then Inl Blocked else Inr (m\<lparr>readers := Suc (readers m)\<rparr>))"

definition RUnlock :: "RWMutex \<Rightarrow> RWMutex" where
  "RUnlock m = m\<lparr>readers := readers m - 1\<rparr>"

definition unlocked :: RWMutex where
  "unlocked = \<lparr>writer = False, readers = 0\<rparr>"

text \<open>
  A buffered channel is its buffer and its capacity. \<open>try_send\<close> is the
  \<open>select { case c <- x: default: }\<close> of the source: \<open>None\<close> is the default branch.
  \<open>recv\<close> is \<open><-c\<close>: \<open>None\<close> when there is nothing to receive.
\<close>

record 'a chan =
  buf :: "'a list"
  capacity :: nat

definition make_chan :: "nat \<Rightarrow> 'a chan" where
  "make_chan n = \<lparr>buf = [], capacity = n\<rparr>"

definition try_send :: "'a \<Rightarrow> 'a chan \<Rightarrow> 'a chan option" where
  "try_send x c = (if length (buf c) < capacity c then Some (c\<lparr>buf := buf c @ [x]\<rparr>) else None)"

definition recv :: "'a chan \<Rightarrow> ('a \<times> 'a chan) option" where
  "recv c = (case buf c of [] \<Rightarrow> None | x # xs \<Rightarrow> Some (x, c\<lparr>buf := xs\<rparr>))"

text \<open>The slice expression \<open>s[:n]\<close> on a string panics when \<open>n\<close> exceeds the length.\<close>

definition slice_to :: "nat \<Rightarrow> string \<Rightarrow> fault + string" where
  "slice_to n s = (if n \<le> length s then Inr (take n s) else Inl Panic)"

subsection \<open>Data model\<close>

datatype AssetPriority = PriorityLow | PriorityMedium | PriorityHigh | PriorityCritical

fun priority_value :: "AssetPriority \<Rightarrow> nat" where
  "priority_value PriorityLow = 0"
| "priority_value PriorityMedium = 1"
| "priority_value PriorityHigh = 2"
| "priority_value PriorityCritical = 3"

datatype AssetState = StateUnloaded | StateLoading | StateLoaded | StateUnloading

text \<open>
  \<open>rl.Texture2D\<close> belongs to the rendering library; the manager reads its \<open>Width\<close> and
  \<open>Height\<close> (both \<open>int32\<close>) only. \<open>texID\<close> is the library's handle, 0 in the zero value.
\<close>

record Texture2D =
  texID :: nat
  Width :: int
  Height :: int

definition zero_Texture2D :: Texture2D where
  "zero_Texture2D = \<lparr>texID = 0, Width = 0, Height = 0\<rparr>"

record Asset =
  ID :: string
  Texture :: Texture2D
  State :: AssetState
  Priority :: AssetPriority
  Size :: int
  LastUsed :: nat
  RefCount :: int
  LoadFuture :: "bool chan"

text \<open>
  The map of the manager holds pointers; each pointer is created in \<open>RequestAsset\<close> and
  stored under its own identifier only, so the map is modelled with the entries as
  values, and a pointer handed to a caller is the identifier.
\<close>

record AssetManager =
  mu :: RWMutex
  assets :: "string \<rightharpoonup> Asset"
  memoryUsed :: int
  memoryLimit :: int
  loadQueue :: "string chan"
  unloadQueue :: "string chan"
  refCounts :: "string \<rightharpoonup> int"
  accessOrder :: "string list"
  maxCached :: int

definition AssetManagerGlobal :: AssetManager where
  "AssetManagerGlobal =
     \<lparr>mu = unlocked, assets = Map.empty, memoryUsed = 0,
      memoryLimit = 512 * 1024 * 1024,
      loadQueue = make_chan 100, unloadQueue = make_chan 100,
      refCounts = Map.empty, accessOrder = [], maxCached = 50\<rparr>"

text \<open>
  The rendering library is a parameter: \<open>rl path\<close> is the texture that
  \<open>rl.LoadTextureFromImage (rl.LoadImage path)\<close> returns. When the file is missing or
  cannot be decoded the library returns the zero texture; it does not panic.
\<close>

type_synonym renderer = "string \<Rightarrow> Texture2D"

subsection \<open>Operations of the manager\<close>

definition updateAccessOrder :: "string \<Rightarrow> AssetManager \<Rightarrow> AssetManager" where
  "updateAccessOrder assetID am =
     (let removed = remove1 assetID (accessOrder am);
          appended = removed @ [assetID]
      in am\<lparr>accessOrder :=
            (if maxCached am < int (length appended) then drop 1 appended else appended)\<rparr>)"

definition unloadAssetSync :: "string \<Rightarrow> AssetManager \<Rightarrow> AssetManager" where
  "unloadAssetSync assetID am =
     (case assets am assetID of
        None \<Rightarrow> am
      | Some asset \<Rightarrow>
          if State asset \<noteq> StateLoaded then am
          else am\<lparr>assets := (assets am)(assetID \<mapsto> asset\<lparr>State := StateUnloaded\<rparr>),
                  memoryUsed := i64 (memoryUsed am - Size asset)\<rparr>)"

definition image_path :: "string \<Rightarrow> fault + string" where
  "image_path assetID =
     (case slice_to 9 assetID of
        Inl e \<Rightarrow> Inl e
      | Inr p9 \<Rightarrow>
          if p9 = ''character'' then Inr ''assets/images/character.png''
          else (case slice_to 3 assetID of
                  Inl e \<Rightarrow> Inl e
                | Inr p3 \<Rightarrow>
                    if p3 = ''hit'' then Inr (''assets/images/'' @ assetID @ ''.png'')
                    else Inr (''assets/images/'' @ assetID @ ''.png'')))"

definition notify :: "bool chan \<Rightarrow> bool chan" where
  "notify c = (case try_send True c of Some c' \<Rightarrow> c' | None \<Rightarrow> c)"

definition loadAssetSync :: "renderer \<Rightarrow> string \<Rightarrow> AssetManager \<Rightarrow> fault + AssetManager" where
  "loadAssetSync rl assetID am =
     (case assets am assetID of
        None \<Rightarrow> Inr am
      | Some asset \<Rightarrow>
          if State asset \<noteq> StateLoading then Inr am
          else (case image_path assetID of
                  Inl e \<Rightarrow> Inl e
                | Inr path \<Rightarrow>
                    let texture = rl path;
                        size = i32 (Width texture * Height texture * 4)
                    in (case Lock (mu am) of
                          Inl e \<Rightarrow> Inl e
                        | Inr m \<Rightarrow>
                            Inr (am\<lparr>mu := Unlock m,
                                    assets := (assets am)(assetID \<mapsto>
                                       asset\<lparr>Texture := texture, Size := size,
                                             State := StateLoaded,
                                             LoadFuture := notify (LoadFuture asset)\<rparr>),
                                    memoryUsed := i64 (memoryUsed am + size)\<rparr>))))"

definition new_Asset :: "string \<Rightarrow> AssetPriority \<Rightarrow> Asset" where
  "new_Asset assetID priority =
     \<lparr>ID = assetID, Texture = zero_Texture2D, State = StateUnloaded, Priority = priority,
      Size = 0, LastUsed = 0, RefCount = 0, LoadFuture = make_chan 1\<rparr>"

definition refCount_of :: "(string \<rightharpoonup> int) \<Rightarrow> string \<Rightarrow> int" where
  "refCount_of m k = (case m k of None \<Rightarrow> 0 | Some n \<Rightarrow> n)"

definition RequestAsset ::
  "renderer \<Rightarrow> string \<Rightarrow> AssetPriority \<Rightarrow> nat \<Rightarrow> AssetManager \<Rightarrow> fault + AssetManager" where
  "RequestAsset rl assetID priority now am =
     (case Lock (mu am) of
        Inl e \<Rightarrow> Inl e
      | Inr m \<Rightarrow>
          let asset0 = (case assets am assetID of
                          None \<Rightarrow> new_Asset assetID priority
                        | Some a \<Rightarrow> a);
              asset1 = asset0\<lparr>RefCount := i64 (RefCount asset0 + 1), LastUsed := now\<rparr>;
              am1 = updateAccessOrder assetID
                      (am\<lparr>mu := m,
                          refCounts := (refCounts am)(assetID \<mapsto>
                             i64 (refCount_of (refCounts am) assetID + 1)),
                          assets := (assets am)(assetID \<mapsto> asset1)\<rparr>)
          in if State asset1 = StateUnloaded then
               (let am2 = am1\<lparr>assets := (assets am1)(assetID \<mapsto>
                                   asset1\<lparr>State := StateLoading\<rparr>)\<rparr>
                in case try_send assetID (loadQueue am2) of
                     Some q \<Rightarrow> Inr (am2\<lparr>loadQueue := q, mu := Unlock (mu am2)\<rparr>)
                   | None \<Rightarrow>
                       (case loadAssetSync rl assetID am2 of
                          Inl e \<Rightarrow> Inl e
                        | Inr am3 \<Rightarrow> Inr (am3\<lparr>mu := Unlock (mu am3)\<rparr>)))
             else Inr (am1\<lparr>mu := Unlock (mu am1)\<rparr>))"

definition ReleaseAsset :: "string \<Rightarrow> AssetManager \<Rightarrow> fault + AssetManager" where
  "ReleaseAsset assetID am =
     (case Lock (mu am) of
        Inl e \<Rightarrow> Inl e
      | Inr m \<Rightarrow>
          (case assets am assetID of
             None \<Rightarrow> Inr (am\<lparr>mu := Unlock m\<rparr>)
           | Some asset0 \<Rightarrow>
               let asset = asset0\<lparr>RefCount := i64 (RefCount asset0 - 1)\<rparr>;
                   am1 = am\<lparr>mu := m,
                            refCounts := (refCounts am)(assetID \<mapsto>
                               i64 (refCount_of (refCounts am) assetID - 1)),
                            assets := (assets am)(assetID \<mapsto> asset)\<rparr>;
                   am2 = (if RefCount asset \<le> 0 \<and> Priority asset \<noteq> PriorityCritical then
                            (case try_send assetID (unloadQueue am1) of
                               Some q \<Rightarrow> am1\<lparr>unloadQueue := q\<rparr>
                             | None \<Rightarrow> am1)
                          else am1)
               in Inr (am2\<lparr>mu := Unlock (mu am2)\<rparr>)))"

text \<open>
  \<open>unloadWorker\<close> receives a candidate, sleeps five seconds and then acts on it.
  \<open>unloadWorker_receive\<close> is the receive of the \<open>range\<close> loop (\<open>None\<close>: the queue is
  empty and the worker waits); \<open>unloadWorker_act\<close> is the body after the sleep.
\<close>

definition unloadWorker_receive :: "AssetManager \<Rightarrow> (string \<times> AssetManager) option" where
  "unloadWorker_receive am =
     (case recv (unloadQueue am) of
        None \<Rightarrow> None
      | Some (assetID, q) \<Rightarrow> Some (assetID, am\<lparr>unloadQueue := q\<rparr>))"

definition unloadWorker_act :: "string \<Rightarrow> AssetManager \<Rightarrow> fault + AssetManager" where
  "unloadWorker_act assetID am =
     (case Lock (mu am) of
        Inl e \<Rightarrow> Inl e
      | Inr m \<Rightarrow>
          let am1 = am\<lparr>mu := m\<rparr>;
              am2 = (case assets am1 assetID of
                       None \<Rightarrow> am1
                     | Some asset \<Rightarrow>
                         if RefCount asset \<le> 0 then unloadAssetSync assetID am1 else am1)
          in Inr (am2\<lparr>mu := Unlock (mu am2)\<rparr>))"

text \<open>One turn of the \<open>range\<close> loop of \<open>loadWorker\<close>; \<open>None\<close>: the queue is empty.\<close>

definition loadWorker_step :: "renderer \<Rightarrow> AssetManager \<Rightarrow> (fault + AssetManager) option" where
  "loadWorker_step rl am =
     (case recv (loadQueue am) of
        None \<Rightarrow> None
      | Some (assetID, q) \<Rightarrow> Some (loadAssetSync rl assetID (am\<lparr>loadQueue := q\<rparr>)))"

text \<open>
  The loop of \<open>freeMemoryLRU\<close> reads \<open>accessOrder\<close> by index from 0 and never changes
  the list, so it is a recursion over the list; it stops when \<open>memoryUsed\<close> is at the
  target.
\<close>

fun freeLoop :: "int \<Rightarrow> string list \<Rightarrow> AssetManager \<Rightarrow> AssetManager" where
  "freeLoop targetMemory [] am = am"
| "freeLoop targetMemory (assetID # rest) am =
     (if targetMemory < memoryUsed am then
        freeLoop targetMemory rest
          (case assets am assetID of
             None \<Rightarrow> am
           | Some asset \<Rightarrow>
               if RefCount asset \<le> 0 \<and> Priority asset \<noteq> PriorityCritical
               then unloadAssetSync assetID am else am)
      else am)"

definition targetMemory_of :: "int \<Rightarrow> int" where
  "targetMemory_of limit = quo (i64 (limit * 80)) 100"

definition freeMemoryLRU :: "AssetManager \<Rightarrow> AssetManager" where
  "freeMemoryLRU am = freeLoop (targetMemory_of (memoryLimit am)) (accessOrder am) am"

text \<open>One tick of the ticker loop of \<open>memoryManager\<close>.\<close>

definition memoryManager :: "AssetManager \<Rightarrow> fault + AssetManager" where
  "memoryManager am =
     (case Lock (mu am) of
        Inl e \<Rightarrow> Inl e
      | Inr m \<Rightarrow>
          let am1 = am\<lparr>mu := m\<rparr>;
              am2 = (if memoryLimit am1 < memoryUsed am1 then freeMemoryLRU am1 else am1)
          in Inr (am2\<lparr>mu := Unlock (mu am2)\<rparr>))"

subsection \<open>The facade\<close>

record GameAssetSystem =
  ownedAssets :: "string list"

definition NewGameAssetSystem :: GameAssetSystem where
  "NewGameAssetSystem = \<lparr>ownedAssets = []\<rparr>"

text \<open>
  One turn of the loop of \<open>LoadSystemAssets\<close> is a request followed by a wait on the
  entry's \<open>LoadFuture\<close>. The wait ends only after another goroutine has run the load, so
  the turn is given in its two halves.
\<close>

definition LoadSystemAssets_request ::
  "renderer \<Rightarrow> string \<Rightarrow> AssetPriority \<Rightarrow> nat \<Rightarrow> GameAssetSystem \<times> AssetManager
     \<Rightarrow> fault + GameAssetSystem \<times> AssetManager" where
  "LoadSystemAssets_request rl assetID priority now st =
     (case RequestAsset rl assetID priority now (snd st) of
        Inl e \<Rightarrow> Inl e
      | Inr am \<Rightarrow> Inr ((fst st)\<lparr>ownedAssets := ownedAssets (fst st) @ [assetID]\<rparr>, am))"

definition LoadSystemAssets_wait ::
  "string \<Rightarrow> AssetPriority \<Rightarrow> AssetManager \<Rightarrow> fault + AssetManager" where
  "LoadSystemAssets_wait assetID priority am =
     (if priority_value PriorityHigh \<le> priority_value priority then
        (case assets am assetID of
           None \<Rightarrow> Inl Panic
         | Some asset \<Rightarrow>
             (case recv (LoadFuture asset) of
                None \<Rightarrow> Inl Blocked
              | Some (v, c) \<Rightarrow>
                  Inr (am\<lparr>assets := (assets am)(assetID \<mapsto> asset\<lparr>LoadFuture := c\<rparr>)\<rparr>)))
      else Inr am)"

fun release_all :: "string list \<Rightarrow> AssetManager \<Rightarrow> fault + AssetManager" where
  "release_all [] am = Inr am"
| "release_all (assetID # rest) am =
     (case ReleaseAsset assetID am of
        Inl e \<Rightarrow> Inl e
      | Inr am' \<Rightarrow> release_all rest am')"

definition UnloadSystemAssets ::
  "GameAssetSystem \<times> AssetManager \<Rightarrow> fault + GameAssetSystem \<times> AssetManager" where
  "UnloadSystemAssets st =
     (case release_all (ownedAssets (fst st)) (snd st) of
        Inl e \<Rightarrow> Inl e
      | Inr am \<Rightarrow> Inr ((fst st)\<lparr>ownedAssets := []\<rparr>, am))"

definition GetTexture ::
  "string \<Rightarrow> nat \<Rightarrow> AssetManager \<Rightarrow> fault + AssetManager \<times> Texture2D \<times> bool" where
  "GetTexture assetID now am =
     (case RLock (mu am) of
        Inl e \<Rightarrow> Inl e
      | Inr m \<Rightarrow>
          (case assets am assetID of
             None \<Rightarrow> Inr (am\<lparr>mu := RUnlock m\<rparr>, zero_Texture2D, False)
           | Some asset \<Rightarrow>
               if State asset = StateLoaded then
                 Inr (am\<lparr>mu := RUnlock m,
                         assets := (assets am)(assetID \<mapsto> asset\<lparr>LastUsed := now\<rparr>)\<rparr>,
                      Texture asset, True)
               else Inr (am\<lparr>mu := RUnlock m\<rparr>, zero_Texture2D, False)))"

subsection \<open>Runs of the whole system\<close>

text \<open>
  The system is the manager together with the loop variable of \<open>unloadWorker\<close>: the
  candidate it has received and is sleeping on. An event is one call of a client or one
  step of a worker. A worker step that has nothing to do leaves the system as it is. A
  run stops at the first fault.
\<close>

record System =
  manager :: AssetManager
  unloadCandidate :: "string option"

definition initial :: System where
  "initial = \<lparr>manager = AssetManagerGlobal, unloadCandidate = None\<rparr>"

datatype event =
    Request string AssetPriority nat
  | Release string
  | LoadStep
  | UnloadReceive
  | UnloadAct
  | MonitorTick
  | Read string nat

definition lift_manager :: "System \<Rightarrow> fault + AssetManager \<Rightarrow> fault + System" where
  "lift_manager s r = (case r of Inl e \<Rightarrow> Inl e | Inr am \<Rightarrow> Inr (s\<lparr>manager := am\<rparr>))"

fun exec :: "renderer \<Rightarrow> event \<Rightarrow> System \<Rightarrow> fault + System" where
  "exec rl (Request assetID priority now) s =
     lift_manager s (RequestAsset rl assetID priority now (manager s))"
| "exec rl (Release assetID) s = lift_manager s (ReleaseAsset assetID (manager s))"
| "exec rl LoadStep s =
     (case loadWorker_step rl (manager s) of
        None \<Rightarrow> Inr s
      | Some r \<Rightarrow> lift_manager s r)"
| "exec rl UnloadReceive s =
     (case unloadCandidate s of
        Some c \<Rightarrow> Inr s
      | None \<Rightarrow>
          (case unloadWorker_receive (manager s) of
             None \<Rightarrow> Inr s
           | Some (assetID, am) \<Rightarrow> Inr \<lparr>manager = am, unloadCandidate = Some assetID\<rparr>))"
| "exec rl UnloadAct s =
     (case unloadCandidate s of
        None \<Rightarrow> Inr s
      | Some assetID \<Rightarrow>
          lift_manager (s\<lparr>unloadCandidate := None\<rparr>) (unloadWorker_act assetID (manager s)))"
| "exec rl MonitorTick s = lift_manager s (memoryManager (manager s))"
| "exec rl (Read assetID now) s =
     lift_manager s (map_sum id fst (GetTexture assetID now (manager s)))"

fun run :: "renderer \<Rightarrow> event list \<Rightarrow> System \<Rightarrow> fault + System" where
  "run rl [] s = Inr s"
| "run rl (e # es) s = (case exec rl e s of Inl f \<Rightarrow> Inl f | Inr s' \<Rightarrow> run rl es s')"

text \<open>What a client can observe of an entry.\<close>

definition refCount :: "AssetManager \<Rightarrow> string \<Rightarrow> int option" where
  "refCount am assetID = map_option RefCount (assets am assetID)"

text \<open>The number of references held on an identifier: 0 while it has no entry.\<close>

definition held :: "AssetManager \<Rightarrow> string \<Rightarrow> int" where
  "held am assetID = (case assets am assetID of None \<Rightarrow> 0 | Some a \<Rightarrow> RefCount a)"

definition state_of :: "AssetManager \<Rightarrow> string \<Rightarrow> AssetState option" where
  "state_of am assetID = map_option State (assets am assetID)"

definition present :: "AssetManager \<Rightarrow> string \<Rightarrow> nat \<Rightarrow> bool" where
  "present am assetID now =
     (case GetTexture assetID now am of Inl e \<Rightarrow> False | Inr (am', t, ok) \<Rightarrow> ok)"

text \<open>The same observations at the end of a run; \<open>None\<close> when the run stopped at a fault.\<close>

definition refCount_after :: "fault + System \<Rightarrow> string \<Rightarrow> int option" where
  "refCount_after r assetID =
     (case r of Inl e \<Rightarrow> None | Inr s \<Rightarrow> refCount (manager s) assetID)"

definition state_after :: "fault + System \<Rightarrow> string \<Rightarrow> AssetState option" where
  "state_after r assetID =
     (case r of Inl e \<Rightarrow> None | Inr s \<Rightarrow> state_of (manager s) assetID)"

definition present_after :: "fault + System \<Rightarrow> string \<Rightarrow> nat \<Rightarrow> bool option" where
  "present_after r assetID now =
     (case r of Inl e \<Rightarrow> None | Inr s \<Rightarrow> Some (present (manager s) assetID now))"

text \<open>
  Two renderers for concrete runs: one for which every construction fails (the library
  returns the zero texture), one that returns a 64 by 64 texture for every path.
\<close>

definition failing_renderer :: renderer where
  "failing_renderer path = zero_Texture2D"

definition sample_renderer :: renderer where
  "sample_renderer path = \<lparr>texID = 1, Width = 64, Height = 64\<rparr>"

text \<open>
  A sequence of requests and releases of one identifier in which every release finds a
  count of at least 1 and no request takes the count to \<open>2 ^ 63\<close>; \<open>c\<close> is the count at
  the start.
\<close>

fun releases_covered :: "string \<Rightarrow> int \<Rightarrow> event list \<Rightarrow> bool" where
  "releases_covered k c [] = True"
| "releases_covered k c (Request k' p t # es) =
     (k' = k \<and> c + 1 < 2 ^ 63 \<and> releases_covered k (c + 1) es)"
| "releases_covered k c (Release k' # es) =
     (k' = k \<and> 1 \<le> c \<and> releases_covered k (c - 1) es)"
| "releases_covered k c (e # es) = False"

text \<open>Requests minus releases in a sequence of events.\<close>

fun net_requests :: "event list \<Rightarrow> int" where
  "net_requests [] = 0"
| "net_requests (Request k p t # es) = net_requests es + 1"
| "net_requests (Release k # es) = net_requests es - 1"
| "net_requests (e # es) = net_requests es"

text \<open>
  Requests of \<open>n\<close> different identifiers, all of at least nine bytes: \<open>character\<close>
  followed by \<open>n - 1\<close>, ..., \<open>0\<close> underscores.
\<close>

fun saturating_requests :: "nat \<Rightarrow> event list" where
  "saturating_requests 0 = []"
| "saturating_requests (Suc n) =
     Request (''character'' @ replicate n (CHR ''_'')) PriorityLow 0 # saturating_requests n"


text \<open>
  A renderer that returns a 16384 by 16384 texture: its 1 GiB takes the global manager
  over its limit of 512 MiB with a single asset.
\<close>

definition large_renderer :: renderer where
  "large_renderer path = \<lparr>texID = 1, Width = 16384, Height = 16384\<rparr>"

text \<open>
  An entry the Budget Monitor may unload: loaded, not Critical, reference count at most
  zero. \<open>size_of\<close> is the recorded size of an entry, and \<open>reclaimable\<close> the sum of the
  sizes of the entries of a list that the monitor may unload.
\<close>

definition evictable :: "AssetManager \<Rightarrow> string \<Rightarrow> bool" where
  "evictable am k =
     (case assets am k of
        None \<Rightarrow> False
      | Some a \<Rightarrow> RefCount a \<le> 0 \<and> Priority a \<noteq> PriorityCritical \<and> State a = StateLoaded)"

definition size_of :: "AssetManager \<Rightarrow> string \<Rightarrow> int" where
  "size_of am k = (case assets am k of None \<Rightarrow> 0 | Some a \<Rightarrow> Size a)"

definition reclaimable :: "AssetManager \<Rightarrow> string list \<Rightarrow> int" where
  "reclaimable am ks = sum_list (map (size_of am) (filter (evictable am) ks))"


text \<open>
  Two predicates for the invariant behind the treatment of Critical entries. Every
  identifier in the unload queue, and the candidate the unload worker sleeps on, has an
  entry that is not Critical. A step from \<open>am\<close> to \<open>am'\<close> keeps every entry, keeps its
  priority, and keeps a loaded Critical entry loaded.
\<close>

definition candidates_not_critical :: "System \<Rightarrow> bool" where
  "candidates_not_critical s =
     (\<forall>k \<in> set (buf (unloadQueue (manager s))) \<union> set_option (unloadCandidate s).
        \<exists>a. assets (manager s) k = Some a \<and> Priority a \<noteq> PriorityCritical)"

definition keeps :: "AssetManager \<Rightarrow> AssetManager \<Rightarrow> bool" where
  "keeps am am' =
     (\<forall>k a. assets am k = Some a \<longrightarrow>
        (\<exists>a'. assets am' k = Some a' \<and> Priority a' = Priority a \<and>
           (Priority a = PriorityCritical \<and> State a = StateLoaded \<longrightarrow> State a' = StateLoaded)))"

section \<open>Properties\<close>

lemmas model_defs = i64_def i32_def quo_def Lock_def Unlock_def RLock_def RUnlock_def unlocked_def
  make_chan_def try_send_def recv_def slice_to_def zero_Texture2D_def AssetManagerGlobal_def
  updateAccessOrder_def unloadAssetSync_def image_path_def notify_def loadAssetSync_def
  new_Asset_def refCount_of_def RequestAsset_def ReleaseAsset_def unloadWorker_receive_def
  unloadWorker_act_def loadWorker_step_def targetMemory_of_def freeMemoryLRU_def
  memoryManager_def GetTexture_def initial_def lift_manager_def refCount_def state_of_def
  present_def held_def refCount_after_def state_after_def present_after_def
  failing_renderer_def sample_renderer_def

lemma i64_id: "- (2 ^ 63) \<le> x \<Longrightarrow> x < 2 ^ 63 \<Longrightarrow> i64 x = x"
  by (simp add: i64_def)

subsection \<open>The recency list\<close>

lemma updateAccessOrder_distinct:
  "distinct (accessOrder am) \<Longrightarrow> distinct (accessOrder (updateAccessOrder k am))"
proof -
  assume d: "distinct (accessOrder am)"
  have app: "distinct (remove1 k (accessOrder am) @ [k])"
    using d by simp
  then have "distinct (drop 1 (remove1 k (accessOrder am) @ [k]))"
    by (rule distinct_drop)
  with app show ?thesis
    by (simp add: updateAccessOrder_def Let_def del: drop_append distinct_append)
qed

lemma updateAccessOrder_length:
  "int (length (accessOrder am)) \<le> maxCached am \<Longrightarrow>
   int (length (accessOrder (updateAccessOrder k am))) \<le> maxCached am"
  by (auto simp: updateAccessOrder_def Let_def length_remove1)

text \<open>
  Claim C9. When the recency list has no duplicates and is within the configured maximum
  before \<open>updateAccessOrder\<close>, it has no duplicates and is within the maximum afterwards;
  the update, including the drop of the least recent identifier, leaves every entry of
  the map and the memory total as they were.
\<close>

theorem updateAccessOrder_keeps_tracker:
  assumes "distinct (accessOrder am)"
    and "int (length (accessOrder am)) \<le> maxCached am"
  shows "distinct (accessOrder (updateAccessOrder assetID am)) \<and>
         int (length (accessOrder (updateAccessOrder assetID am)))
           \<le> maxCached (updateAccessOrder assetID am) \<and>
         assets (updateAccessOrder assetID am) = assets am \<and>
         memoryUsed (updateAccessOrder assetID am) = memoryUsed am"
  using assms updateAccessOrder_distinct [of am assetID]
    updateAccessOrder_length [of am assetID]
  by (simp add: updateAccessOrder_def Let_def)

theorem updateAccessOrder_keeps_tracker_witness:
  "distinct (accessOrder (AssetManagerGlobal\<lparr>accessOrder := [''hit1'', ''hit2''], maxCached := 2\<rparr>)) \<and>
   int (length (accessOrder (AssetManagerGlobal\<lparr>accessOrder := [''hit1'', ''hit2''], maxCached := 2\<rparr>))) \<le> 2 \<and>
   accessOrder (updateAccessOrder ''hit3''
      (AssetManagerGlobal\<lparr>accessOrder := [''hit1'', ''hit2''], maxCached := 2\<rparr>)) = [''hit2'', ''hit3''] \<and>
   distinct (accessOrder (updateAccessOrder ''hit3''
      (AssetManagerGlobal\<lparr>accessOrder := [''hit1'', ''hit2''], maxCached := 2\<rparr>))) \<and>
   memoryUsed (updateAccessOrder ''hit3''
      (AssetManagerGlobal\<lparr>accessOrder := [''hit1'', ''hit2''], maxCached := 2\<rparr>)) = 0"
  using updateAccessOrder_keeps_tracker
    [of "AssetManagerGlobal\<lparr>accessOrder := [''hit1'', ''hit2''], maxCached := 2\<rparr>" "''hit3''"]
  by (simp add: updateAccessOrder_def AssetManagerGlobal_def)

subsection \<open>Reference counts\<close>

lemma RequestAsset_held:
  "RequestAsset rl k p now am = Inr am' \<Longrightarrow> held am' k = i64 (held am k + 1)"
  by (auto simp: RequestAsset_def Let_def held_def Lock_def Unlock_def updateAccessOrder_def
      loadAssetSync_def new_Asset_def
      split: sum.splits option.splits if_splits)

lemma ReleaseAsset_held:
  "ReleaseAsset k am = Inr am' \<Longrightarrow> assets am k \<noteq> None \<Longrightarrow> held am' k = i64 (held am k - 1)"
  by (auto simp: ReleaseAsset_def Let_def held_def Lock_def Unlock_def
      split: sum.splits option.splits if_splits)

lemma held_positive_entry: "1 \<le> held am k \<Longrightarrow> assets am k \<noteq> None"
  by (auto simp: held_def split: option.splits)

text \<open>
  Claim C1, as amended. In a sequence of \<open>RequestAsset\<close> and \<open>ReleaseAsset\<close> calls on one
  identifier in which every release finds a count of at least 1 (and the count stays
  below \<open>2 ^ 63\<close>), the count after the calls is the count before plus the requests minus
  the releases, and it is not negative. Every prefix of such a sequence is such a
  sequence, so this is the count observed after each call.
\<close>

theorem covered_releases_keep_refCount_nonneg:
  "releases_covered k (held (manager s) k) es \<Longrightarrow> 0 \<le> held (manager s) k \<Longrightarrow>
   held (manager s) k < 2 ^ 63 \<Longrightarrow>
   run rl es s = Inr s' \<Longrightarrow>
   held (manager s') k = held (manager s) k + net_requests es \<and> 0 \<le> held (manager s') k"
proof (induction es arbitrary: s)
  case Nil
  then show ?case by simp
next
  case (Cons e es)
  from Cons.prems(4) obtain s1 where e1: "exec rl e s = Inr s1" and r1: "run rl es s1 = Inr s'"
    by (auto split: sum.splits)
  show ?case
  proof (cases e)
    case (Request k' p t)
    with Cons.prems(1) have k: "k' = k" and b: "held (manager s) k + 1 < 2 ^ 63"
      and c: "releases_covered k (held (manager s) k + 1) es" by auto
    from e1 Request k have "held (manager s1) k = i64 (held (manager s) k + 1)"
      by (auto simp: lift_manager_def split: sum.splits dest: RequestAsset_held)
    with b Cons.prems(2) have h: "held (manager s1) k = held (manager s) k + 1"
      by (simp add: i64_id)
    with c b Cons.prems(2) r1 Cons.IH [of s1] Request show ?thesis by simp
  next
    case (Release k')
    with Cons.prems(1) have k: "k' = k" and b: "1 \<le> held (manager s) k"
      and c: "releases_covered k (held (manager s) k - 1) es" by auto
    from b have "assets (manager s) k \<noteq> None" by (rule held_positive_entry)
    with e1 Release k have "held (manager s1) k = i64 (held (manager s) k - 1)"
      by (auto simp: lift_manager_def split: sum.splits dest: ReleaseAsset_held)
    then have h: "held (manager s1) k = held (manager s) k - 1"
      using b Cons.prems(3) by (simp add: i64_id)
    with c b r1 Cons.prems(3) Cons.IH [of s1] Release show ?thesis by simp
  qed (use Cons.prems(1) in auto)
qed

theorem covered_releases_keep_refCount_nonneg_witness:
  "releases_covered ''character''
      (held (manager initial) ''character'')
      [Request ''character'' PriorityLow 0, Release ''character'',
       Request ''character'' PriorityHigh 1] \<and>
   0 \<le> held (manager initial) ''character'' \<and>
   held (manager initial) ''character'' < 2 ^ 63 \<and>
   refCount_after
     (run sample_renderer
        [Request ''character'' PriorityLow 0, Release ''character'',
         Request ''character'' PriorityHigh 1] initial) ''character'' = Some 1 \<and>
   0 \<le> held (manager (projr (run sample_renderer
        [Request ''character'' PriorityLow 0, Release ''character'',
         Request ''character'' PriorityHigh 1] initial))) ''character''"
  using covered_releases_keep_refCount_nonneg
    [of "''character''" initial
        "[Request ''character'' PriorityLow 0, Release ''character'',
          Request ''character'' PriorityHigh 1]"
        sample_renderer
        "projr (run sample_renderer
           [Request ''character'' PriorityLow 0, Release ''character'',
            Request ''character'' PriorityHigh 1] initial)"]
  by (simp add: model_defs)

text \<open>
  The claim as stated fails: after one request, a first release takes the count to 0 and
  a second release is not a no-op but takes it to \<open>-1\<close>.
\<close>

theorem release_at_zero_counterexample:
  "refCount_after
     (run sample_renderer
        [Request ''character'' PriorityLow 0, Release ''character''] initial)
     ''character'' = Some 0 \<and>
   refCount_after
     (run sample_renderer
        [Request ''character'' PriorityLow 0, Release ''character'', Release ''character'']
        initial)
     ''character'' = Some (- 1)"
  by (simp add: model_defs)

subsection \<open>A request while the load queue is full\<close>

lemma RequestAsset_fresh_enqueues:
  assumes "mu am = unlocked" and "assets am k = None"
    and "length (buf (loadQueue am)) < capacity (loadQueue am)"
  shows "\<exists>am'. RequestAsset rl k p now am = Inr am' \<and> mu am' = unlocked \<and>
           buf (loadQueue am') = buf (loadQueue am) @ [k] \<and>
           capacity (loadQueue am') = capacity (loadQueue am) \<and>
           (\<forall>k'. k' \<noteq> k \<longrightarrow> assets am' k' = assets am k')"
  using assms
  by (simp add: RequestAsset_def Let_def Lock_def Unlock_def unlocked_def updateAccessOrder_def
      new_Asset_def try_send_def)

lemma RequestAsset_full_queue:
  assumes "mu am = unlocked" and "assets am k = None"
    and "capacity (loadQueue am) \<le> length (buf (loadQueue am))"
  shows "RequestAsset rl k p now am = (if length k < 9 then Inl Panic else Inl Blocked)"
  using assms
  by (simp add: RequestAsset_def Let_def Lock_def Unlock_def unlocked_def updateAccessOrder_def
      new_Asset_def try_send_def loadAssetSync_def image_path_def slice_to_def)

lemma run_append:
  "run rl (es @ fs) s = (case run rl es s of Inl f \<Rightarrow> Inl f | Inr s' \<Rightarrow> run rl fs s')"
  by (induction es arbitrary: s) (auto split: sum.splits)

lemma saturating_id_neq:
  "j < n \<Longrightarrow> ''character'' @ replicate j (CHR ''_'') \<noteq> ''character'' @ replicate n (CHR ''_'')"
proof
  assume "j < n" and "''character'' @ replicate j (CHR ''_'') = ''character'' @ replicate n (CHR ''_'')"
  then have "length (replicate j (CHR ''_'')) = length (replicate n (CHR ''_''))"
    by simp
  with \<open>j < n\<close> show False by simp
qed

lemma saturating_requests_fill:
  "mu (manager s) = unlocked \<Longrightarrow>
   (\<forall>j<n. assets (manager s) (''character'' @ replicate j (CHR ''_'')) = None) \<Longrightarrow>
   length (buf (loadQueue (manager s))) + n \<le> capacity (loadQueue (manager s)) \<Longrightarrow>
   \<exists>s'. run rl (saturating_requests n) s = Inr s' \<and> mu (manager s') = unlocked \<and>
     length (buf (loadQueue (manager s'))) = length (buf (loadQueue (manager s))) + n \<and>
     capacity (loadQueue (manager s')) = capacity (loadQueue (manager s)) \<and>
     (\<forall>k'. (\<forall>j<n. k' \<noteq> ''character'' @ replicate j (CHR ''_'')) \<longrightarrow>
        assets (manager s') k' = assets (manager s) k')"
proof (induction n arbitrary: s)
  case 0
  then show ?case by simp
next
  case (Suc n)
  let ?k = "''character'' @ replicate n (CHR ''_'')"
  from Suc.prems have fresh: "assets (manager s) ?k = None" by simp
  from Suc.prems have room: "length (buf (loadQueue (manager s))) < capacity (loadQueue (manager s))"
    by simp
  from RequestAsset_fresh_enqueues [OF Suc.prems(1) fresh room, of rl PriorityLow 0]
  obtain am1 where r: "RequestAsset rl ?k PriorityLow 0 (manager s) = Inr am1"
    and m: "mu am1 = unlocked"
    and q: "buf (loadQueue am1) = buf (loadQueue (manager s)) @ [?k]"
    and c: "capacity (loadQueue am1) = capacity (loadQueue (manager s))"
    and o: "\<forall>k'. k' \<noteq> ?k \<longrightarrow> assets am1 k' = assets (manager s) k'"
    by blast
  let ?s1 = "s\<lparr>manager := am1\<rparr>"
  have f1: "\<forall>j<n. assets (manager ?s1) (''character'' @ replicate j (CHR ''_'')) = None"
    using o Suc.prems(2) saturating_id_neq by simp
  have l1: "length (buf (loadQueue (manager ?s1))) + n \<le> capacity (loadQueue (manager ?s1))"
    using q c Suc.prems(3) by simp
  from Suc.IH [of ?s1] m f1 l1
  obtain s' where r': "run rl (saturating_requests n) ?s1 = Inr s'"
    and m': "mu (manager s') = unlocked"
    and q': "length (buf (loadQueue (manager s'))) = length (buf (loadQueue (manager ?s1))) + n"
    and c': "capacity (loadQueue (manager s')) = capacity (loadQueue (manager ?s1))"
    and o': "\<forall>k'. (\<forall>j<n. k' \<noteq> ''character'' @ replicate j (CHR ''_'')) \<longrightarrow>
               assets (manager s') k' = assets (manager ?s1) k'"
    by auto
  have "run rl (saturating_requests (Suc n)) s = Inr s'"
    using r r' by (simp add: lift_manager_def)
  moreover have "length (buf (loadQueue (manager s'))) = length (buf (loadQueue (manager s))) + Suc n"
    using q' q by simp
  moreover have "capacity (loadQueue (manager s')) = capacity (loadQueue (manager s))"
    using c' c by simp
  moreover have "\<forall>k'. (\<forall>j<Suc n. k' \<noteq> ''character'' @ replicate j (CHR ''_'')) \<longrightarrow>
        assets (manager s') k' = assets (manager s) k'"
    using o' o by (simp add: less_Suc_eq)
  ultimately show ?case using m' by blast
qed

text \<open>
  Claim C2. One hundred requests of fresh identifiers with no load worker running fill
  the load queue of the global manager. The next request of a fresh identifier takes the
  synchronous path: \<open>loadAssetSync\<close> asks for the lock that \<open>RequestAsset\<close> itself holds,
  so the call never returns.
\<close>

theorem RequestAsset_saturated_queue_blocks:
  "run sample_renderer
     (saturating_requests 100 @ [Request ''background_01'' PriorityLow 0]) initial
   = Inl Blocked"
proof -
  have "\<forall>j<100. assets (manager initial) (''character'' @ replicate j (CHR ''_'')) = None"
    by (simp add: initial_def AssetManagerGlobal_def)
  moreover have "mu (manager initial) = unlocked"
    by (simp add: initial_def AssetManagerGlobal_def)
  moreover have "length (buf (loadQueue (manager initial))) + 100
      \<le> capacity (loadQueue (manager initial))"
    by (simp add: initial_def AssetManagerGlobal_def make_chan_def)
  ultimately obtain s' where r: "run sample_renderer (saturating_requests 100) initial = Inr s'"
    and m: "mu (manager s') = unlocked"
    and q: "length (buf (loadQueue (manager s'))) = length (buf (loadQueue (manager initial))) + 100"
    and c: "capacity (loadQueue (manager s')) = capacity (loadQueue (manager initial))"
    and o: "\<forall>k'. (\<forall>j<100. k' \<noteq> ''character'' @ replicate j (CHR ''_'')) \<longrightarrow>
               assets (manager s') k' = assets (manager initial) k'"
    using saturating_requests_fill [of initial 100 sample_renderer] by blast
  have "assets (manager s') ''background_01'' = assets (manager initial) ''background_01''"
    using o by simp
  then have fresh: "assets (manager s') ''background_01'' = None"
    by (simp add: initial_def AssetManagerGlobal_def)
  have full: "capacity (loadQueue (manager s')) \<le> length (buf (loadQueue (manager s')))"
    using q c by (simp add: initial_def AssetManagerGlobal_def make_chan_def)
  have "RequestAsset sample_renderer ''background_01'' PriorityLow 0 (manager s') = Inl Blocked"
    using RequestAsset_full_queue [OF m fresh full] by simp
  with r show ?thesis
    by (simp add: run_append lift_manager_def)
qed

subsection \<open>Identifiers shorter than nine bytes\<close>

text \<open>
  Claim C4. A request of \<open>hit1\<close> or of the empty identifier creates an entry in state
  \<open>StateLoading\<close>; the load step of the worker then evaluates \<open>assetID[:9]\<close> and panics.
\<close>

theorem loadAssetSync_short_identifier_panics:
  "state_after (run sample_renderer [Request ''hit1'' PriorityHigh 0] initial) ''hit1''
     = Some StateLoading \<and>
   run sample_renderer [Request ''hit1'' PriorityHigh 0, LoadStep] initial = Inl Panic \<and>
   state_after (run sample_renderer [Request [] PriorityLow 0] initial) []
     = Some StateLoading \<and>
   run sample_renderer [Request [] PriorityLow 0, LoadStep] initial = Inl Panic"
  by (simp add: model_defs)

subsection \<open>The load step\<close>

lemma image_path_long:
  "9 \<le> length k \<Longrightarrow>
   image_path k = Inr (if take 9 k = ''character'' then ''assets/images/character.png''
                       else ''assets/images/'' @ k @ ''.png'')"
  by (simp add: image_path_def slice_to_def)

text \<open>
  Claim C3, as amended. For an identifier of at least nine bytes whose entry is in state
  \<open>StateLoading\<close>, the load step run while nobody holds the lock ends with the entry in
  state \<open>StateLoaded\<close> whatever the renderer returned, the zero texture of a failed
  construction included: it stores that texture, records width times height times 4
  as the size, adds the size to the memory total and puts \<open>true\<close> on the load signal when
  the signal's buffer has room. The step has no failure outcome.
\<close>

theorem loadAssetSync_always_loaded:
  assumes "assets am k = Some a" and "State a = StateLoading"
    and "mu am = unlocked" and "9 \<le> length k"
  shows "\<exists>am' a' path. image_path k = Inr path \<and> loadAssetSync rl k am = Inr am' \<and>
           assets am' k = Some a' \<and> State a' = StateLoaded \<and>
           Texture a' = rl path \<and>
           Size a' = i32 (Width (rl path) * Height (rl path) * 4) \<and>
           memoryUsed am' = i64 (memoryUsed am + Size a') \<and>
           buf (LoadFuture a') =
             (if length (buf (LoadFuture a)) < capacity (LoadFuture a)
              then buf (LoadFuture a) @ [True] else buf (LoadFuture a)) \<and>
           mu am' = unlocked"
  using assms
  by (simp add: loadAssetSync_def image_path_long Let_def Lock_def Unlock_def unlocked_def
      notify_def try_send_def)

theorem loadAssetSync_always_loaded_witness:
  "state_after (run failing_renderer [Request ''missing_asset'' PriorityHigh 0] initial)
      ''missing_asset'' = Some StateLoading \<and>
   (9::nat) \<le> length ''missing_asset'' \<and>
   (\<exists>am'. loadAssetSync failing_renderer ''missing_asset''
        (manager (projr (run failing_renderer [Request ''missing_asset'' PriorityHigh 0] initial)))
        = Inr am' \<and>
      state_of am' ''missing_asset'' = Some StateLoaded \<and>
      memoryUsed am' = 0 \<and>
      map_option (\<lambda>a. buf (LoadFuture a)) (assets am' ''missing_asset'') = Some [True])"
  using loadAssetSync_always_loaded
    [of "manager (projr (run failing_renderer [Request ''missing_asset'' PriorityHigh 0] initial))"
        "''missing_asset''"
        "the (assets (manager (projr (run failing_renderer
            [Request ''missing_asset'' PriorityHigh 0] initial))) ''missing_asset'')"
        failing_renderer]
  by (simp add: model_defs)

text \<open>
  The claim as stated fails: with a renderer for which every construction fails, the
  load step leaves the entry in state \<open>StateLoaded\<close>, not \<open>StateUnloaded\<close>, and the
  resource counts as present.
\<close>

theorem failed_construction_counterexample:
  "state_after
     (run failing_renderer [Request ''missing_asset'' PriorityHigh 0, LoadStep] initial)
     ''missing_asset'' = Some StateLoaded \<and>
   present_after
     (run failing_renderer [Request ''missing_asset'' PriorityHigh 0, LoadStep] initial)
     ''missing_asset'' 1 = Some True"
  by (simp add: model_defs)

subsection \<open>High-priority requests\<close>

text \<open>
  Claim C5, as amended. \<open>RequestAsset\<close> does not wait for the load signal at any
  priority: for a fresh identifier and a load queue with room it returns at once with
  the entry in state \<open>StateLoading\<close> and the resource absent. The wait is in the facade:
  after the request, \<open>LoadSystemAssets\<close> at priority High or Critical is blocked on the
  load signal; once the load step has run for the identifier (of at least nine bytes),
  the wait returns and \<open>GetTexture\<close> yields the loaded texture as present.
\<close>

theorem LoadSystemAssets_waits_for_load:
  assumes "mu am = unlocked" and "assets am k = None"
    and "length (buf (loadQueue am)) < capacity (loadQueue am)"
    and "9 \<le> length k"
    and "priority_value PriorityHigh \<le> priority_value p"
  shows "\<exists>gas' am1 am2 am3 am4 path.
           LoadSystemAssets_request rl k p now (gas, am) = Inr (gas', am1) \<and>
           ownedAssets gas' = ownedAssets gas @ [k] \<and>
           state_of am1 k = Some StateLoading \<and>
           GetTexture k t am1 = Inr (am1, zero_Texture2D, False) \<and>
           LoadSystemAssets_wait k p am1 = Inl Blocked \<and>
           loadAssetSync rl k am1 = Inr am2 \<and>
           LoadSystemAssets_wait k p am2 = Inr am3 \<and>
           image_path k = Inr path \<and>
           GetTexture k t am3 = Inr (am4, rl path, True)"
  using assms
  by (simp add: LoadSystemAssets_request_def LoadSystemAssets_wait_def RequestAsset_def
      loadAssetSync_def GetTexture_def image_path_long Let_def Lock_def Unlock_def RLock_def
      RUnlock_def unlocked_def updateAccessOrder_def new_Asset_def try_send_def recv_def
      notify_def make_chan_def state_of_def)

theorem LoadSystemAssets_waits_for_load_witness:
  "mu AssetManagerGlobal = unlocked \<and> assets AssetManagerGlobal ''character'' = None \<and>
   length (buf (loadQueue AssetManagerGlobal)) < capacity (loadQueue AssetManagerGlobal) \<and>
   (9::nat) \<le> length ''character'' \<and>
   priority_value PriorityHigh \<le> priority_value PriorityCritical \<and>
   (\<exists>gas' am1 am2 am3 am4 path.
      LoadSystemAssets_request sample_renderer ''character'' PriorityCritical 0
        (NewGameAssetSystem, AssetManagerGlobal) = Inr (gas', am1) \<and>
      ownedAssets gas' = ownedAssets NewGameAssetSystem @ [''character''] \<and>
      state_of am1 ''character'' = Some StateLoading \<and>
      GetTexture ''character'' 1 am1 = Inr (am1, zero_Texture2D, False) \<and>
      LoadSystemAssets_wait ''character'' PriorityCritical am1 = Inl Blocked \<and>
      loadAssetSync sample_renderer ''character'' am1 = Inr am2 \<and>
      LoadSystemAssets_wait ''character'' PriorityCritical am2 = Inr am3 \<and>
      image_path ''character'' = Inr path \<and>
      GetTexture ''character'' 1 am3 = Inr (am4, sample_renderer path, True))"
proof -
  have h1: "mu AssetManagerGlobal = unlocked"
    by (simp add: AssetManagerGlobal_def)
  have h2: "assets AssetManagerGlobal ''character'' = None"
    by (simp add: AssetManagerGlobal_def)
  have h3: "length (buf (loadQueue AssetManagerGlobal)) < capacity (loadQueue AssetManagerGlobal)"
    by (simp add: AssetManagerGlobal_def make_chan_def)
  have h4: "(9::nat) \<le> length ''character''"
    by simp
  have h5: "priority_value PriorityHigh \<le> priority_value PriorityCritical"
    by simp
  from LoadSystemAssets_waits_for_load [OF h1 h2 h3 h4 h5, of sample_renderer 0 NewGameAssetSystem 1]
  show ?thesis using h1 h2 h3 h4 h5 by blast
qed

text \<open>
  The claim as stated fails: a request at priority High or Critical returns while the
  entry is still in state \<open>StateLoading\<close>, and the resource is absent on return.
\<close>

theorem RequestAsset_returns_before_load_counterexample:
  "state_after (run sample_renderer [Request ''character'' PriorityHigh 0] initial)
     ''character'' = Some StateLoading \<and>
   present_after (run sample_renderer [Request ''character'' PriorityHigh 0] initial)
     ''character'' 1 = Some False \<and>
   present_after (run sample_renderer [Request ''character'' PriorityCritical 0] initial)
     ''character'' 1 = Some False"
  by (simp add: model_defs)

subsection \<open>Reads and the recency list\<close>

lemma unloadAssetSync_frame:
  "mu (unloadAssetSync k am) = mu am"
  "memoryLimit (unloadAssetSync k am) = memoryLimit am"
  "loadQueue (unloadAssetSync k am) = loadQueue am"
  "unloadQueue (unloadAssetSync k am) = unloadQueue am"
  "refCounts (unloadAssetSync k am) = refCounts am"
  "accessOrder (unloadAssetSync k am) = accessOrder am"
  "maxCached (unloadAssetSync k am) = maxCached am"
  by (simp_all add: unloadAssetSync_def split: option.splits)

lemma freeLoop_frame:
  "mu (freeLoop t ks am) = mu am \<and>
   memoryLimit (freeLoop t ks am) = memoryLimit am \<and>
   loadQueue (freeLoop t ks am) = loadQueue am \<and>
   unloadQueue (freeLoop t ks am) = unloadQueue am \<and>
   refCounts (freeLoop t ks am) = refCounts am \<and>
   accessOrder (freeLoop t ks am) = accessOrder am \<and>
   maxCached (freeLoop t ks am) = maxCached am"
  by (induction ks arbitrary: am) (simp_all add: unloadAssetSync_frame split: option.splits)






text \<open>
  A read of a loaded asset nobody holds does not keep the Budget Monitor from unloading
  it.
\<close>

lemma read_does_not_protect:
  "state_after (run large_renderer
      [Request ''character'' PriorityLow 0, LoadStep, Release ''character''] initial)
      ''character'' = Some StateLoaded \<and>
   state_after (run large_renderer
      [Request ''character'' PriorityLow 0, LoadStep, Release ''character'',
       Read ''character'' 5, MonitorTick] initial)
      ''character'' = Some StateUnloaded"
  by (simp add: model_defs large_renderer_def)

text \<open>Only \<open>RequestAsset\<close> changes the recency list.\<close>

lemma RequestAsset_accessOrder:
  "RequestAsset rl k p now am = Inr am' \<Longrightarrow>
   accessOrder am' = accessOrder (updateAccessOrder k am) \<and> maxCached am' = maxCached am"
  by (auto simp: RequestAsset_def Let_def Lock_def Unlock_def updateAccessOrder_def
      loadAssetSync_def split: sum.splits option.splits if_splits)

lemma ReleaseAsset_accessOrder:
  "ReleaseAsset k am = Inr am' \<Longrightarrow>
   accessOrder am' = accessOrder am \<and> maxCached am' = maxCached am"
  by (auto simp: ReleaseAsset_def Let_def split: sum.splits option.splits if_splits)

lemma loadAssetSync_accessOrder:
  "loadAssetSync rl k am = Inr am' \<Longrightarrow>
   accessOrder am' = accessOrder am \<and> maxCached am' = maxCached am"
  by (auto simp: loadAssetSync_def Let_def split: sum.splits option.splits if_splits)

lemma unloadWorker_act_accessOrder:
  "unloadWorker_act k am = Inr am' \<Longrightarrow>
   accessOrder am' = accessOrder am \<and> maxCached am' = maxCached am"
  by (auto simp: unloadWorker_act_def Let_def unloadAssetSync_frame
      split: sum.splits option.splits if_splits)

lemma memoryManager_accessOrder:
  "memoryManager am = Inr am' \<Longrightarrow>
   accessOrder am' = accessOrder am \<and> maxCached am' = maxCached am"
  by (auto simp: memoryManager_def Let_def freeMemoryLRU_def freeLoop_frame
      split: sum.splits if_splits)

lemma GetTexture_accessOrder:
  "GetTexture k now am = Inr r \<Longrightarrow>
   accessOrder (fst r) = accessOrder am \<and> maxCached (fst r) = maxCached am"
  by (auto simp: GetTexture_def split: sum.splits option.splits if_splits)

lemma exec_accessOrder:
  assumes "exec rl e s = Inr s'" and "\<forall>k p t. e \<noteq> Request k p t"
  shows "accessOrder (manager s') = accessOrder (manager s) \<and>
         maxCached (manager s') = maxCached (manager s)"
proof (cases e)
  case (Request k p t)
  with assms(2) show ?thesis by simp
next
  case (Release k)
  with assms(1) show ?thesis
    by (auto simp: lift_manager_def split: sum.splits dest: ReleaseAsset_accessOrder)
next
  case LoadStep
  with assms(1) show ?thesis
    by (auto simp: lift_manager_def loadWorker_step_def recv_def
        split: sum.splits option.splits list.splits dest: loadAssetSync_accessOrder)
next
  case UnloadReceive
  with assms(1) show ?thesis
    by (auto simp: unloadWorker_receive_def recv_def split: option.splits list.splits)
next
  case UnloadAct
  with assms(1) show ?thesis
    by (auto simp: lift_manager_def split: sum.splits option.splits
        dest: unloadWorker_act_accessOrder)
next
  case MonitorTick
  with assms(1) show ?thesis
    by (auto simp: lift_manager_def split: sum.splits dest: memoryManager_accessOrder)
next
  case (Read k t)
  with assms(1) show ?thesis
    by (auto simp: lift_manager_def map_sum_def split: sum.splits dest: GetTexture_accessOrder)
qed

text \<open>
  In every state the system reaches from its initial state the recency list has no
  duplicates and is within the configured maximum.
\<close>

lemma exec_tracker:
  assumes "exec rl e s = Inr s'" and "distinct (accessOrder (manager s))"
    and "int (length (accessOrder (manager s))) \<le> maxCached (manager s)"
  shows "distinct (accessOrder (manager s')) \<and>
         int (length (accessOrder (manager s'))) \<le> maxCached (manager s')"
proof (cases "\<exists>k p t. e = Request k p t")
  case True
  then obtain k p t where e: "e = Request k p t" by blast
  with assms(1) obtain am' where r: "RequestAsset rl k p t (manager s) = Inr am'"
    and s': "manager s' = am'"
    by (auto simp: lift_manager_def split: sum.splits)
  from RequestAsset_accessOrder [OF r] s' assms(2,3)
    updateAccessOrder_distinct [of "manager s" k] updateAccessOrder_length [of "manager s" k]
  show ?thesis by simp
next
  case False
  with exec_accessOrder [OF assms(1)] assms(2,3) show ?thesis by simp
qed

lemma run_tracker:
  "run rl es s = Inr s' \<Longrightarrow> distinct (accessOrder (manager s)) \<Longrightarrow>
   int (length (accessOrder (manager s))) \<le> maxCached (manager s) \<Longrightarrow>
   distinct (accessOrder (manager s')) \<and>
   int (length (accessOrder (manager s'))) \<le> maxCached (manager s')"
proof (induction es arbitrary: s)
  case Nil
  then show ?case by simp
next
  case (Cons e es)
  from Cons.prems(1) obtain s1 where e1: "exec rl e s = Inr s1" and r1: "run rl es s1 = Inr s'"
    by (auto split: sum.splits)
  from exec_tracker [OF e1 Cons.prems(2,3)] Cons.IH [OF r1] show ?case by simp
qed

lemma reachable_tracker:
  assumes "run rl es initial = Inr s"
  shows "distinct (accessOrder (manager s)) \<and>
         int (length (accessOrder (manager s))) \<le> maxCached (manager s)"
  using run_tracker [OF assms] by (simp add: initial_def AssetManagerGlobal_def)

subsection \<open>The Budget Monitor\<close>








lemma reclaimable_cong:
  "(\<And>k. k \<in> set ks \<Longrightarrow> assets am' k = assets am k) \<Longrightarrow> reclaimable am' ks = reclaimable am ks"
proof (induction ks)
  case Nil
  then show ?case by (simp add: reclaimable_def)
next
  case (Cons k ks)
  then have "reclaimable am' ks = reclaimable am ks" by simp
  moreover have "assets am' k = assets am k"
    using Cons.prems by simp
  then have "evictable am' k = evictable am k" "size_of am' k = size_of am k"
    by (simp_all add: evictable_def size_of_def)
  ultimately show ?case by (simp add: reclaimable_def)
qed





lemma evictable_mu [simp]: "evictable (am\<lparr>mu := m\<rparr>) k = evictable am k"
  by (simp add: evictable_def)

lemma size_of_mu [simp]: "size_of (am\<lparr>mu := m\<rparr>) k = size_of am k"
  by (simp add: size_of_def)

lemma reclaimable_mu [simp]: "reclaimable (am\<lparr>mu := m\<rparr>) ks = reclaimable am ks"
  by (rule reclaimable_cong) simp

lemma state_of_mu [simp]: "state_of (am\<lparr>mu := m\<rparr>) k = state_of am k"
  by (simp add: state_of_def)




subsection \<open>Critical entries\<close>

lemma keeps_refl: "keeps am am"
  by (simp add: keeps_def)

lemma keeps_trans: "keeps am am' \<Longrightarrow> keeps am' am'' \<Longrightarrow> keeps am am''"
  unfolding keeps_def by (metis (no_types, lifting))

lemma unloadAssetSync_keeps:
  "assets am k = None \<or> (\<exists>a. assets am k = Some a \<and> Priority a \<noteq> PriorityCritical) \<Longrightarrow>
   keeps am (unloadAssetSync k am)"
  by (auto simp: keeps_def unloadAssetSync_def split: option.splits)

lemma freeLoop_keeps: "keeps am (freeLoop t ks am)"
proof (induction ks arbitrary: am)
  case Nil
  then show ?case by (simp add: keeps_refl)
next
  case (Cons k ks)
  let ?am1 = "case assets am k of
             None \<Rightarrow> am
           | Some asset \<Rightarrow>
               if RefCount asset \<le> 0 \<and> Priority asset \<noteq> PriorityCritical
               then unloadAssetSync k am else am"
  have "keeps am ?am1"
    by (auto simp: keeps_refl intro: unloadAssetSync_keeps split: option.splits)
  moreover have "keeps ?am1 (freeLoop t ks ?am1)"
    by (rule Cons.IH)
  ultimately have "keeps am (freeLoop t ks ?am1)"
    by (rule keeps_trans)
  then show ?case by (simp add: keeps_refl)
qed

lemma memoryManager_keeps:
  "memoryManager am = Inr am' \<Longrightarrow> keeps am am' \<and> unloadQueue am' = unloadQueue am"
proof -
  assume r: "memoryManager am = Inr am'"
  then obtain m where l: "Lock (mu am) = Inr m"
    by (auto simp: memoryManager_def split: sum.splits)
  let ?am1 = "am\<lparr>mu := m\<rparr>"
  have k1: "keeps ?am1 (freeMemoryLRU ?am1)"
    by (simp add: freeMemoryLRU_def freeLoop_keeps)
  have q1: "unloadQueue (freeMemoryLRU ?am1) = unloadQueue am"
    by (simp add: freeMemoryLRU_def freeLoop_frame)
  have "keeps am ?am1" by (simp add: keeps_def)
  from this k1 have "keeps am (freeMemoryLRU ?am1)" by (rule keeps_trans)
  then have "keeps am ((freeMemoryLRU ?am1)\<lparr>mu := Unlock (mu (freeMemoryLRU ?am1))\<rparr>)"
    by (simp add: keeps_def)
  with r l q1 show ?thesis
    by (auto simp: memoryManager_def Let_def keeps_def split: if_splits)
qed

lemma RequestAsset_keeps:
  "RequestAsset rl k p now am = Inr am' \<Longrightarrow> keeps am am' \<and> unloadQueue am' = unloadQueue am"
  by (auto simp: RequestAsset_def Let_def Lock_def Unlock_def updateAccessOrder_def
      loadAssetSync_def keeps_def
      split: sum.splits option.splits if_splits)

lemma ReleaseAsset_keeps:
  "ReleaseAsset k am = Inr am' \<Longrightarrow>
   keeps am am' \<and>
   (buf (unloadQueue am') = buf (unloadQueue am) \<or>
    buf (unloadQueue am') = buf (unloadQueue am) @ [k] \<and>
    (\<exists>a. assets am k = Some a \<and> Priority a \<noteq> PriorityCritical))"
  by (auto simp: ReleaseAsset_def Let_def Lock_def Unlock_def try_send_def keeps_def
      split: sum.splits option.splits if_splits)

lemma loadAssetSync_keeps:
  "loadAssetSync rl k am = Inr am' \<Longrightarrow> keeps am am' \<and> unloadQueue am' = unloadQueue am"
  by (auto simp: loadAssetSync_def Let_def keeps_def split: sum.splits option.splits if_splits)

lemma unloadWorker_act_keeps:
  assumes "unloadWorker_act k am = Inr am'"
    and "\<exists>a. assets am k = Some a \<and> Priority a \<noteq> PriorityCritical"
  shows "keeps am am' \<and> unloadQueue am' = unloadQueue am"
proof -
  from assms(1) obtain m where l: "Lock (mu am) = Inr m"
    by (auto simp: unloadWorker_act_def split: sum.splits)
  let ?am1 = "am\<lparr>mu := m\<rparr>"
  from assms(2) have k1: "keeps ?am1 (unloadAssetSync k ?am1)"
    by (intro unloadAssetSync_keeps) auto
  have "keeps am ?am1" by (simp add: keeps_def)
  from this k1 have "keeps am (unloadAssetSync k ?am1)" by (rule keeps_trans)
  then have "keeps am ((unloadAssetSync k ?am1)\<lparr>mu := Unlock (mu (unloadAssetSync k ?am1))\<rparr>)"
    by (simp add: keeps_def)
  with assms l show ?thesis
    by (auto simp: unloadWorker_act_def Let_def keeps_def unloadAssetSync_frame
        split: if_splits)
qed

lemma GetTexture_keeps:
  "GetTexture k now am = Inr r \<Longrightarrow> keeps am (fst r) \<and> unloadQueue (fst r) = unloadQueue am"
  by (auto simp: GetTexture_def keeps_def split: sum.splits option.splits if_splits)

lemma keeps_not_critical:
  "keeps am am' \<Longrightarrow> \<exists>a. assets am k = Some a \<and> Priority a \<noteq> PriorityCritical \<Longrightarrow>
   \<exists>a'. assets am' k = Some a' \<and> Priority a' \<noteq> PriorityCritical"
  unfolding keeps_def by metis

lemma candidates_step:
  assumes "candidates_not_critical s" and "keeps (manager s) am'"
    and "unloadQueue am' = unloadQueue (manager s)"
  shows "candidates_not_critical (s\<lparr>manager := am'\<rparr>)"
  unfolding candidates_not_critical_def
proof
  fix k assume "k \<in> set (buf (unloadQueue (manager (s\<lparr>manager := am'\<rparr>))))
                    \<union> set_option (unloadCandidate (s\<lparr>manager := am'\<rparr>))"
  with assms(3) have "k \<in> set (buf (unloadQueue (manager s))) \<union> set_option (unloadCandidate s)"
    by simp
  with assms(1) have "\<exists>a. assets (manager s) k = Some a \<and> Priority a \<noteq> PriorityCritical"
    unfolding candidates_not_critical_def by blast
  with assms(2) have "\<exists>a'. assets am' k = Some a' \<and> Priority a' \<noteq> PriorityCritical"
    by (rule keeps_not_critical)
  then show "\<exists>a. assets (manager (s\<lparr>manager := am'\<rparr>)) k = Some a \<and> Priority a \<noteq> PriorityCritical"
    by simp
qed

lemma exec_keeps:
  assumes inv: "candidates_not_critical s" and ex: "exec rl e s = Inr s'"
  shows "candidates_not_critical s' \<and> keeps (manager s) (manager s')"
proof (cases e)
  case (Request k p t)
  with ex obtain am' where r: "RequestAsset rl k p t (manager s) = Inr am'"
    and s': "s' = s\<lparr>manager := am'\<rparr>"
    by (auto simp: lift_manager_def split: sum.splits)
  from RequestAsset_keeps [OF r] inv s' show ?thesis
    by (simp add: candidates_step)
next
  case (Release k)
  with ex obtain am' where r: "ReleaseAsset k (manager s) = Inr am'"
    and s': "s' = s\<lparr>manager := am'\<rparr>"
    by (auto simp: lift_manager_def split: sum.splits)
  from ReleaseAsset_keeps [OF r] have kp: "keeps (manager s) am'"
    and q: "buf (unloadQueue am') = buf (unloadQueue (manager s)) \<or>
            buf (unloadQueue am') = buf (unloadQueue (manager s)) @ [k] \<and>
            (\<exists>a. assets (manager s) k = Some a \<and> Priority a \<noteq> PriorityCritical)"
    by simp_all
  have "candidates_not_critical s'"
    unfolding candidates_not_critical_def
  proof
    fix j assume m: "j \<in> set (buf (unloadQueue (manager s'))) \<union> set_option (unloadCandidate s')"
    have "\<exists>a. assets (manager s) j = Some a \<and> Priority a \<noteq> PriorityCritical"
    proof (cases "j \<in> set (buf (unloadQueue (manager s))) \<union> set_option (unloadCandidate s)")
      case True
      with inv show ?thesis unfolding candidates_not_critical_def by blast
    next
      case False
      with m s' q have "j = k \<and> (\<exists>a. assets (manager s) k = Some a \<and> Priority a \<noteq> PriorityCritical)"
        by auto
      then show ?thesis by blast
    qed
    with kp have "\<exists>a'. assets am' j = Some a' \<and> Priority a' \<noteq> PriorityCritical"
      by (rule keeps_not_critical)
    with s' show "\<exists>a. assets (manager s') j = Some a \<and> Priority a \<noteq> PriorityCritical"
      by simp
  qed
  with kp s' show ?thesis by simp
next
  case LoadStep
  show ?thesis
  proof (cases "recv (loadQueue (manager s))")
    case None
    with ex LoadStep inv show ?thesis
      by (simp add: loadWorker_step_def keeps_refl)
  next
    case (Some kq)
    obtain k q where kq: "kq = (k, q)" by (cases kq)
    let ?am0 = "(manager s)\<lparr>loadQueue := q\<rparr>"
    from ex LoadStep Some kq obtain am' where r: "loadAssetSync rl k ?am0 = Inr am'"
      and s': "s' = s\<lparr>manager := am'\<rparr>"
      by (auto simp: loadWorker_step_def lift_manager_def split: sum.splits)
    from loadAssetSync_keeps [OF r] have "keeps ?am0 am'" and q': "unloadQueue am' = unloadQueue (manager s)"
      by simp_all
    moreover have "keeps (manager s) ?am0" by (simp add: keeps_def)
    ultimately have "keeps (manager s) am'" by (blast intro: keeps_trans)
    with inv q' s' show ?thesis by (simp add: candidates_step)
  qed
next
  case UnloadReceive
  show ?thesis
  proof (cases "unloadCandidate s = None \<and> buf (unloadQueue (manager s)) \<noteq> []")
    case False
    with ex UnloadReceive have "s' = s"
      by (auto simp: unloadWorker_receive_def recv_def split: option.splits list.splits)
    with inv show ?thesis by (simp add: keeps_refl)
  next
    case True
    then obtain k ks where b: "buf (unloadQueue (manager s)) = k # ks"
      by (cases "buf (unloadQueue (manager s))") auto
    with ex UnloadReceive True have s': "s' = \<lparr>manager = (manager s)\<lparr>unloadQueue :=
          (unloadQueue (manager s))\<lparr>buf := ks\<rparr>\<rparr>, unloadCandidate = Some k\<rparr>"
      by (auto simp: unloadWorker_receive_def recv_def)
    have "candidates_not_critical s'"
      using inv b True unfolding candidates_not_critical_def s' by auto
    moreover have "keeps (manager s) (manager s')"
      by (simp add: s' keeps_def)
    ultimately show ?thesis by simp
  qed
next
  case UnloadAct
  show ?thesis
  proof (cases "unloadCandidate s")
    case None
    with ex UnloadAct inv show ?thesis by (simp add: keeps_refl)
  next
    case (Some k)
    with ex UnloadAct obtain am' where r: "unloadWorker_act k (manager s) = Inr am'"
      and s': "s' = \<lparr>manager = am', unloadCandidate = None\<rparr>"
      by (auto simp: lift_manager_def split: sum.splits)
    from inv Some have nc: "\<exists>a. assets (manager s) k = Some a \<and> Priority a \<noteq> PriorityCritical"
      unfolding candidates_not_critical_def by simp
    from unloadWorker_act_keeps [OF r nc] have kp: "keeps (manager s) am'"
      and q: "unloadQueue am' = unloadQueue (manager s)" by simp_all
    have "candidates_not_critical s'"
      unfolding candidates_not_critical_def
    proof
      fix j assume "j \<in> set (buf (unloadQueue (manager s'))) \<union> set_option (unloadCandidate s')"
      with s' q have "j \<in> set (buf (unloadQueue (manager s)))" by simp
      with inv have "\<exists>a. assets (manager s) j = Some a \<and> Priority a \<noteq> PriorityCritical"
        unfolding candidates_not_critical_def by blast
      with kp have "\<exists>a'. assets am' j = Some a' \<and> Priority a' \<noteq> PriorityCritical"
        by (rule keeps_not_critical)
      with s' show "\<exists>a. assets (manager s') j = Some a \<and> Priority a \<noteq> PriorityCritical"
        by simp
    qed
    with kp s' show ?thesis by simp
  qed
next
  case MonitorTick
  with ex obtain am' where r: "memoryManager (manager s) = Inr am'"
    and s': "s' = s\<lparr>manager := am'\<rparr>"
    by (auto simp: lift_manager_def split: sum.splits)
  from memoryManager_keeps [OF r] inv s' show ?thesis
    by (simp add: candidates_step)
next
  case (Read k t)
  with ex obtain r where g: "GetTexture k t (manager s) = Inr r"
    and s': "s' = s\<lparr>manager := fst r\<rparr>"
    by (auto simp: lift_manager_def map_sum_def split: sum.splits)
  from GetTexture_keeps [OF g] inv s' show ?thesis
    by (simp add: candidates_step)
qed

lemma run_keeps:
  "candidates_not_critical s \<Longrightarrow> run rl es s = Inr s' \<Longrightarrow>
   candidates_not_critical s' \<and> keeps (manager s) (manager s')"
proof (induction es arbitrary: s)
  case Nil
  then show ?case by (simp add: keeps_refl)
next
  case (Cons e es)
  from Cons.prems(2) obtain s1 where e1: "exec rl e s = Inr s1" and r1: "run rl es s1 = Inr s'"
    by (auto split: sum.splits)
  from exec_keeps [OF Cons.prems(1) e1] have i1: "candidates_not_critical s1"
    and k1: "keeps (manager s) (manager s1)" by simp_all
  from Cons.IH [OF i1 r1] k1 show ?case
    by (blast intro: keeps_trans)
qed

lemma initial_candidates: "candidates_not_critical initial"
  by (simp add: candidates_not_critical_def initial_def AssetManagerGlobal_def make_chan_def)

text \<open>
  Claim C6. In every state the system reaches from its initial state, an entry that is
  Critical and loaded is still loaded after any further sequence of events: releases
  (also down to zero references and below), steps of the unload worker, runs of the
  Budget Monitor, and requests, reads and load steps as well.
\<close>

theorem critical_stays_loaded:
  assumes "run rl es0 initial = Inr s"
    and "assets (manager s) k = Some a"
    and "Priority a = PriorityCritical" and "State a = StateLoaded"
    and "run rl es s = Inr s'"
  shows "state_of (manager s') k = Some StateLoaded"
proof -
  from run_keeps [OF initial_candidates assms(1)] have "candidates_not_critical s"
    by simp
  from run_keeps [OF this assms(5)] have "keeps (manager s) (manager s')"
    by simp
  with assms(2,3,4) show ?thesis
    by (auto simp: keeps_def state_of_def)
qed

theorem critical_stays_loaded_witness:
  "state_after (run large_renderer
      [Request ''character'' PriorityCritical 0, LoadStep] initial) ''character''
     = Some StateLoaded \<and>
   refCount_after (run large_renderer
      [Release ''character'', Release ''character'', UnloadReceive, UnloadAct, MonitorTick]
      (projr (run large_renderer
         [Request ''character'' PriorityCritical 0, LoadStep] initial))) ''character''
     = Some (- 1) \<and>
   state_of (manager (projr (run large_renderer
      [Release ''character'', Release ''character'', UnloadReceive, UnloadAct, MonitorTick]
      (projr (run large_renderer
         [Request ''character'' PriorityCritical 0, LoadStep] initial))))) ''character''
     = Some StateLoaded"
proof -
  let ?before = "[Request ''character'' PriorityCritical 0, LoadStep]"
  let ?after = "[Release ''character'', Release ''character'', UnloadReceive, UnloadAct, MonitorTick]"
  let ?s = "projr (run large_renderer ?before initial)"
  let ?s' = "projr (run large_renderer ?after ?s)"
  let ?a = "the (assets (manager ?s) ''character'')"
  have h1: "run large_renderer ?before initial = Inr ?s"
    by (simp add: model_defs large_renderer_def Let_def)
  have "assets (manager ?s) ''character'' \<noteq> None"
    by (simp add: model_defs large_renderer_def Let_def)
  then have h2: "assets (manager ?s) ''character'' = Some ?a"
    by simp
  have h3: "Priority ?a = PriorityCritical"
    by (simp add: model_defs large_renderer_def Let_def)
  have h4: "State ?a = StateLoaded"
    by (simp add: model_defs large_renderer_def Let_def)
  have h5: "run large_renderer ?after ?s = Inr ?s'"
    by (simp add: model_defs large_renderer_def Let_def)
  have c1: "state_after (run large_renderer ?before initial) ''character'' = Some StateLoaded"
    by (simp add: model_defs large_renderer_def Let_def)
  have c2: "refCount_after (run large_renderer ?after ?s) ''character'' = Some (- 1)"
    by (simp add: model_defs large_renderer_def Let_def)
  from critical_stays_loaded [OF h1 h2 h3 h4 h5] c1 c2 show ?thesis
    by (simp only: simp_thms)
qed

subsection \<open>Release and re-request before the unload worker acts\<close>

lemma unloadWorker_act_drops_referenced:
  assumes "mu am = unlocked" and "assets am k = Some a" and "0 < RefCount a"
  shows "unloadWorker_act k am = Inr am"
  using assms
  by (simp add: unloadWorker_act_def Let_def Lock_def Unlock_def unlocked_def)

lemma ReleaseAsset_referenced:
  assumes "mu am = unlocked" and "assets am k = Some a"
    and "1 \<le> RefCount a" and "RefCount a < 2 ^ 63"
  shows "\<exists>am1. ReleaseAsset k am = Inr am1 \<and> mu am1 = unlocked \<and>
           assets am1 k = Some (a\<lparr>RefCount := RefCount a - 1\<rparr>) \<and>
           memoryUsed am1 = memoryUsed am"
proof -
  have "i64 (RefCount a - 1) = RefCount a - 1"
    using assms(3,4) by (intro i64_id) auto
  with assms(1,2) show ?thesis
    by (simp add: ReleaseAsset_def Let_def Lock_def Unlock_def unlocked_def
        split: option.splits)
qed

lemma RequestAsset_loaded:
  assumes "mu am = unlocked" and "assets am k = Some a" and "State a = StateLoaded"
    and "0 \<le> RefCount a" and "RefCount a + 1 < 2 ^ 63"
  shows "\<exists>am2. RequestAsset rl k p now am = Inr am2 \<and> mu am2 = unlocked \<and>
           assets am2 k = Some (a\<lparr>RefCount := RefCount a + 1, LastUsed := now\<rparr>) \<and>
           memoryUsed am2 = memoryUsed am"
proof -
  have "i64 (RefCount a + 1) = RefCount a + 1"
    using assms(4,5) by (intro i64_id) auto
  with assms(1,2,3) show ?thesis
    by (simp add: RequestAsset_def Let_def Lock_def Unlock_def unlocked_def
        updateAccessOrder_def)
qed

lemma present_loaded:
  assumes "mu am = unlocked" and "assets am k = Some a" and "State a = StateLoaded"
  shows "present am k t"
  using assms by (simp add: present_def GetTexture_def RLock_def unlocked_def)

text \<open>
  Claim C8, as amended. Take a loaded asset that is held (reference count at least 1),
  with the lock free. Releasing it and requesting it again, with no step of the unload
  worker or of the Budget Monitor in between, leaves it loaded after the release and
  after the request, with the reference count back at its value. When the unload
  worker then acts on a candidate for it, after its wait, it finds the count above zero
  and drops the candidate: the entries and the memory total are as before, and the
  resource is present at every point.
\<close>

theorem release_then_request_keeps_loaded:
  assumes "mu am = unlocked" and "assets am k = Some a" and "State a = StateLoaded"
    and "1 \<le> RefCount a" and "RefCount a < 2 ^ 63"
  shows "\<exists>am1 am2.
           ReleaseAsset k am = Inr am1 \<and>
           state_of am1 k = Some StateLoaded \<and> present am1 k t \<and>
           RequestAsset rl k p now am1 = Inr am2 \<and>
           state_of am2 k = Some StateLoaded \<and> present am2 k t \<and>
           refCount am2 k = Some (RefCount a) \<and>
           unloadWorker_act k am2 = Inr am2"
proof -
  from ReleaseAsset_referenced [OF assms(1,2,4,5)] obtain am1 where
    r1: "ReleaseAsset k am = Inr am1" and m1: "mu am1 = unlocked"
    and a1: "assets am1 k = Some (a\<lparr>RefCount := RefCount a - 1\<rparr>)"
    by blast
  let ?a1 = "a\<lparr>RefCount := RefCount a - 1\<rparr>"
  have s1: "State ?a1 = StateLoaded" using assms(3) by simp
  have c1: "0 \<le> RefCount ?a1" using assms(4) by simp
  have c2: "RefCount ?a1 + 1 < 2 ^ 63" using assms(5) by simp
  from RequestAsset_loaded [OF m1 a1 s1 c1 c2, of rl p now] obtain am2 where
    r2: "RequestAsset rl k p now am1 = Inr am2" and m2: "mu am2 = unlocked"
    and a2: "assets am2 k = Some (?a1\<lparr>RefCount := RefCount ?a1 + 1, LastUsed := now\<rparr>)"
    by blast
  let ?a2 = "?a1\<lparr>RefCount := RefCount ?a1 + 1, LastUsed := now\<rparr>"
  have s2: "State ?a2 = StateLoaded" using assms(3) by simp
  have pos: "0 < RefCount ?a2" using assms(4) by simp
  have p1: "present am1 k t" using m1 a1 s1 by (rule present_loaded)
  have p2: "present am2 k t" using m2 a2 s2 by (rule present_loaded)
  have u: "unloadWorker_act k am2 = Inr am2"
    using m2 a2 pos by (rule unloadWorker_act_drops_referenced)
  have "state_of am1 k = Some StateLoaded" using a1 s1 by (simp add: state_of_def)
  moreover have "state_of am2 k = Some StateLoaded" using a2 s2 by (simp add: state_of_def)
  moreover have "refCount am2 k = Some (RefCount a)" using a2 by (simp add: refCount_def)
  ultimately show ?thesis using r1 r2 p1 p2 u by blast
qed

theorem release_then_request_keeps_loaded_witness:
  "state_after (run sample_renderer [Request ''character'' PriorityLow 0, LoadStep] initial)
      ''character'' = Some StateLoaded \<and>
   refCount_after (run sample_renderer [Request ''character'' PriorityLow 0, LoadStep] initial)
      ''character'' = Some 1 \<and>
   (\<exists>am1 am2.
      ReleaseAsset ''character'' (manager (projr (run sample_renderer
          [Request ''character'' PriorityLow 0, LoadStep] initial))) = Inr am1 \<and>
      state_of am1 ''character'' = Some StateLoaded \<and> present am1 ''character'' 3 \<and>
      RequestAsset sample_renderer ''character'' PriorityLow 2 am1 = Inr am2 \<and>
      state_of am2 ''character'' = Some StateLoaded \<and> present am2 ''character'' 3 \<and>
      refCount am2 ''character'' = Some 1 \<and>
      unloadWorker_act ''character'' am2 = Inr am2)"
proof -
  let ?am = "manager (projr (run sample_renderer
          [Request ''character'' PriorityLow 0, LoadStep] initial))"
  let ?a = "the (assets ?am ''character'')"
  have h1: "mu ?am = unlocked"
    by (simp add: model_defs Let_def)
  have "assets ?am ''character'' \<noteq> None"
    by (simp add: model_defs Let_def)
  then have h2: "assets ?am ''character'' = Some ?a"
    by simp
  have h3: "State ?a = StateLoaded"
    by (simp add: model_defs Let_def)
  have rc: "RefCount ?a = 1"
    by (simp add: model_defs Let_def)
  have h4: "1 \<le> RefCount ?a" and h5: "RefCount ?a < 2 ^ 63"
    using rc by simp_all
  have c1: "state_after (run sample_renderer [Request ''character'' PriorityLow 0, LoadStep] initial)
      ''character'' = Some StateLoaded"
    by (simp add: model_defs Let_def)
  have c2: "refCount_after (run sample_renderer [Request ''character'' PriorityLow 0, LoadStep] initial)
      ''character'' = Some 1"
    by (simp add: model_defs Let_def)
  from release_then_request_keeps_loaded [OF h1 h2 h3 h4 h5, of 3 sample_renderer PriorityLow 2]
  show ?thesis using c1 c2 rc by simp
qed

text \<open>
  The claim as stated fails. The wait of the unload worker starts when it receives a
  candidate, not at the latest release. Here the asset is released, the worker receives
  the candidate, the asset is requested and released again; the worker then acts on the
  first candidate, finds the count at zero and unloads the asset, while the candidate
  of the second release is still in the queue. The request that follows finds the asset
  unloaded; the resource was absent from the worker's step on.
\<close>

theorem stale_candidate_counterexample:
  "present_after (run sample_renderer
      [Request ''character'' PriorityLow 0, LoadStep, Release ''character'', UnloadReceive,
       Request ''character'' PriorityLow 1, Release ''character''] initial)
      ''character'' 2 = Some True \<and>
   present_after (run sample_renderer
      [Request ''character'' PriorityLow 0, LoadStep, Release ''character'', UnloadReceive,
       Request ''character'' PriorityLow 1, Release ''character'', UnloadAct] initial)
      ''character'' 2 = Some False \<and>
   state_after (run sample_renderer
      [Request ''character'' PriorityLow 0, LoadStep, Release ''character'', UnloadReceive,
       Request ''character'' PriorityLow 1, Release ''character'', UnloadAct,
       Request ''character'' PriorityLow 2] initial)
      ''character'' = Some StateLoading \<and>
   present_after (run sample_renderer
      [Request ''character'' PriorityLow 0, LoadStep, Release ''character'', UnloadReceive,
       Request ''character'' PriorityLow 1, Release ''character'', UnloadAct,
       Request ''character'' PriorityLow 2] initial)
      ''character'' 2 = Some False"
  by (simp add: model_defs Let_def)

end
